theory Spec2Isabelle
  imports Main "HOL-Library.AList"
begin

section \<open>Data model\<close>

text \<open>
  The engine of \<^verbatim>\<open>finn/core/onnx_exec.py\<close> moves tensors between dictionaries; it never
  looks inside a tensor except for its shape. A tensor is therefore a shape together with
  an opaque payload. Buffers are never written in place by the code under study, so they
  are values.
\<close>

type_synonym shape = "nat list"

record ndarray =
  shape :: shape
  data :: "int list"

text \<open>
  Every \<^verbatim>\<open>raise\<close> of the source and every runtime failure of a Python primitive it uses
  is a value. The arguments of a constructor are the arguments of the source's format
  string, in the order in which the source passes them:
  \<^item> \<open>UnspecifiedShapes\<close>: "Found unspecified tensor shapes, try infer\_shapes";
  \<^item> \<open>InputShapeMismatch n f e\<close>: "Shape mismatch for provided input n: found f expected e";
  \<^item> \<open>OutputShapesDisagree f e\<close>: "Output shapes disagree after node execution: found f vs
    expected e";
  \<^item> \<open>UnknownExecMode\<close>: "Metadata property exec\_mode is set to an unknown value ..." (the
    message has no format argument);
  \<^item> \<open>AttributeError\<close>, \<open>UnboundLocalError\<close>, \<open>IndexError\<close>, \<open>KeyError k\<close>, \<open>RecursionError\<close>:
    the interpreter's own exceptions;
  \<^item> \<open>CollaboratorError s\<close>: a failure raised inside an external collaborator.
\<close>

datatype error =
    UnspecifiedShapes
  | InputShapeMismatch string shape shape
  | OutputShapesDisagree shape shape
  | UnknownExecMode
  | AttributeError
  | UnboundLocalError
  | IndexError
  | KeyError string
  | RecursionError
  | CollaboratorError string

text \<open>
  A Python \<^verbatim>\<open>dict\<close> keeps insertion order: it is an association list with distinct keys.
  \<^verbatim>\<open>d[k] = v\<close> is \<^const>\<open>AList.update\<close> (overwrite in place, or append), \<^verbatim>\<open>d[k]\<close> is
  \<^const>\<open>map_of\<close>, \<^verbatim>\<open>d.keys()\<close> is \<open>map fst\<close>.
\<close>

type_synonym pydict = "(string \<times> ndarray) list"

record value_info =
  vi_name :: string
  vi_shape :: shape

record node =
  op_type :: string
  domain :: string
  n_input :: "string list"
  n_output :: "string list"
  n_attribute :: "(string \<times> string) list"

record graph =
  g_node :: "node list"
  g_input :: "value_info list"
  g_output :: "value_info list"
  g_value_info :: "value_info list"
  g_initializer :: pydict

record model =
  m_graph :: graph
  m_metadata_props :: "(string \<times> string) list"

text \<open>
  Dictionaries are objects: \<^verbatim>\<open>execute_node\<close> mutates the context it is handed, and the
  partition path hands the caller's context to a nested \<^verbatim>\<open>execute_onnx\<close> as its
  \<^verbatim>\<open>input_dict\<close>. The store is the list of all dictionaries allocated so far; a reference is
  an index into it, and allocation appends.
\<close>

type_synonym addr = nat
type_synonym heap = "pydict list"

text \<open>
  The collaborators that are imported by the module but are not part of it are parameters:
  the three \<^verbatim>\<open>ModelWrapper\<close> methods, the loading of a partition's model
  (\<^verbatim>\<open>ModelWrapper(getCustomOp(node).get_nodeattr("model"))\<close>), the custom-operator executor,
  the generic backend (\<^verbatim>\<open>InferenceSession(...).run(None, input_dict)\<close> on the single-node
  model built from the node and the selected declarations), and the two offload paths.
  A collaborator that is handed a context may write to that context and may raise; it
  returns the context as it left it.
\<close>

record env =
  check_all_tensor_shapes_specified :: "model \<Rightarrow> bool"
  make_empty_exec_context :: "model \<Rightarrow> pydict"
  get_metadata_prop :: "model \<Rightarrow> string \<Rightarrow> string option"
  load_model :: "node \<Rightarrow> error + model"
  execute_custom_node :: "node \<Rightarrow> pydict \<Rightarrow> graph \<Rightarrow> error option \<times> pydict"
  sess_run :: "node \<Rightarrow> value_info list \<Rightarrow> value_info list \<Rightarrow> pydict \<Rightarrow> error + ndarray list"
  remote_exec :: "model \<Rightarrow> pydict \<Rightarrow> error option \<times> pydict"
  rtlsim_exec :: "model \<Rightarrow> pydict \<Rightarrow> error option \<times> pydict"

section \<open>The generic-backend path of \<^verbatim>\<open>execute_node\<close>\<close>

text \<open>Lines 83 to 85: \<^verbatim>\<open>for inp in node.input: input_dict[inp] = context[inp]\<close>.\<close>

fun make_input_dict :: "string list \<Rightarrow> pydict \<Rightarrow> pydict \<Rightarrow> error + pydict" where
  "make_input_dict [] context input_dict = Inr input_dict"
| "make_input_dict (inp # inps) context input_dict =
     (case map_of context inp of
        None \<Rightarrow> Inl (KeyError inp)
      | Some t \<Rightarrow> make_input_dict inps context (AList.update inp t input_dict))"

text \<open>
  Lines 95 to 97: the inner loop over \<^verbatim>\<open>range(len(node_outputs))\<close>. The local variable
  \<^verbatim>\<open>list_ind\<close> is unbound (\<open>None\<close>) until the first assignment, and it is never reset.
\<close>

fun find_list_ind :: "string \<Rightarrow> value_info list \<Rightarrow> nat \<Rightarrow> nat option \<Rightarrow> nat option" where
  "find_list_ind outp [] i list_ind = list_ind"
| "find_list_ind outp (v # vs) i list_ind =
     find_list_ind outp vs (Suc i) (if outp = vi_name v then Some i else list_ind)"

text \<open>
  Lines 90 to 109: the outer loop over \<^verbatim>\<open>node.output\<close>. The comparison on line 100 reads
  \<^verbatim>\<open>list_ind\<close>, then \<^verbatim>\<open>output_list[list_ind]\<close>, then \<^verbatim>\<open>context[outp]\<close>. When the shapes differ,
  the arguments of the message are evaluated first, and the first of them is
  \<^verbatim>\<open>output_list[list_ind].shape.shape\<close>: a tuple has no attribute \<^verbatim>\<open>shape\<close>.
\<close>

fun store_outputs ::
  "string list \<Rightarrow> value_info list \<Rightarrow> ndarray list \<Rightarrow> nat option \<Rightarrow> pydict \<Rightarrow> error option \<times> pydict"
where
  "store_outputs [] node_outputs output_list list_ind context = (None, context)"
| "store_outputs (outp # outps) node_outputs output_list list_ind context =
     (case find_list_ind outp node_outputs 0 list_ind of
        None \<Rightarrow> (Some UnboundLocalError, context)
      | Some i \<Rightarrow>
          if length output_list \<le> i then (Some IndexError, context)
          else (case map_of context outp of
                  None \<Rightarrow> (Some (KeyError outp), context)
                | Some t \<Rightarrow>
                    if shape (output_list ! i) \<noteq> shape t then (Some AttributeError, context)
                    else store_outputs outps node_outputs output_list (Some i)
                           (AList.update outp (output_list ! i) context)))"

text \<open>Lines 68 to 75: the declarations selected for the single-node model.\<close>

definition select_node_inputs :: "node \<Rightarrow> graph \<Rightarrow> value_info list" where
  "select_node_inputs node graph =
     filter (\<lambda>x. vi_name x \<in> set (n_input node)) (g_input graph) @
     filter (\<lambda>x. vi_name x \<in> set (n_input node)) (g_value_info graph)"

definition select_node_outputs :: "node \<Rightarrow> graph \<Rightarrow> value_info list" where
  "select_node_outputs node graph =
     filter (\<lambda>x. vi_name x \<in> set (n_output node)) (g_output graph) @
     filter (\<lambda>x. vi_name x \<in> set (n_output node)) (g_value_info graph)"

text \<open>
  Lines 61 to 109, on the context's value. \<^verbatim>\<open>make_graph\<close> and \<^verbatim>\<open>make_model\<close> only assemble
  the single-node model from the node and the selected declarations; the session that is
  created from it and its \<^verbatim>\<open>run\<close> are the backend \<^const>\<open>sess_run\<close>, which may raise.
\<close>

definition execute_generic :: "env \<Rightarrow> node \<Rightarrow> pydict \<Rightarrow> graph \<Rightarrow> error option \<times> pydict" where
  "execute_generic E node context graph =
     (let node_inputs = select_node_inputs node graph;
          node_outputs = select_node_outputs node graph
      in case make_input_dict (n_input node) context [] of
           Inl e \<Rightarrow> (Some e, context)
         | Inr input_dict \<Rightarrow>
             (case sess_run E node node_inputs node_outputs input_dict of
                Inl e \<Rightarrow> (Some e, context)
              | Inr output_list \<Rightarrow>
                  store_outputs (n_output node) node_outputs output_list None context))"

section \<open>\<^verbatim>\<open>execute_onnx\<close> and \<^verbatim>\<open>execute_node\<close>\<close>

text \<open>
  Lines 133 to 147: the loop over \<^verbatim>\<open>input_dict.keys()\<close>. The arguments of the message are
  the name, \<^verbatim>\<open>execution_context[inp_name].shape\<close> and \<^verbatim>\<open>input_dict[inp_name].shape\<close>, in this
  order.
\<close>

fun bind_inputs :: "string list \<Rightarrow> pydict \<Rightarrow> pydict \<Rightarrow> error option \<times> pydict" where
  "bind_inputs [] input_dict execution_context = (None, execution_context)"
| "bind_inputs (inp_name # keys) input_dict execution_context =
     (case map_of execution_context inp_name of
        None \<Rightarrow> bind_inputs keys input_dict execution_context
      | Some t \<Rightarrow>
          (case map_of input_dict inp_name of
             None \<Rightarrow> (Some (KeyError inp_name), execution_context)
           | Some v \<Rightarrow>
               if shape t = shape v
               then bind_inputs keys input_dict (AList.update inp_name v execution_context)
               else (Some (InputShapeMismatch inp_name (shape t) (shape v)), execution_context)))"

text \<open>Lines 177 to 180: the loop over \<^verbatim>\<open>graph.output\<close> that fills \<^verbatim>\<open>output_dict\<close>.\<close>

fun make_output_dict :: "value_info list \<Rightarrow> pydict \<Rightarrow> pydict \<Rightarrow> error + pydict" where
  "make_output_dict [] execution_context output_dict = Inr output_dict"
| "make_output_dict (out_tensor # outs) execution_context output_dict =
     (case map_of execution_context (vi_name out_tensor) of
        None \<Rightarrow> Inl (KeyError (vi_name out_tensor))
      | Some t \<Rightarrow>
          make_output_dict outs execution_context
            (AList.update (vi_name out_tensor) t output_dict))"

text \<open>
  Lines 173 to 181, after the selected strategy has run: an exception of the strategy
  propagates; otherwise the context itself is returned, or a new dictionary is allocated
  and filled. When filling it raises, the new dictionary is unreachable and is dropped.
\<close>

definition return_result :: "bool \<Rightarrow> graph \<Rightarrow> addr \<Rightarrow> error option \<times> heap \<Rightarrow> (error + addr) \<times> heap" where
  "return_result return_full_exec_context graph execution_context r =
     (case r of
        (Some e, h) \<Rightarrow> (Inl e, h)
      | (None, h) \<Rightarrow>
          if return_full_exec_context then (Inr execution_context, h)
          else (case make_output_dict (g_output graph) (h ! execution_context) [] of
                  Inl e \<Rightarrow> (Inl e, h)
                | Inr output_dict \<Rightarrow> (Inr (length h), h @ [output_dict])))"

text \<open>\<^verbatim>\<open>context.update(ret)\<close>: every item of \<^verbatim>\<open>ret\<close>, in order, is assigned into the context.\<close>

definition dict_update :: "pydict \<Rightarrow> pydict \<Rightarrow> pydict" where
  "dict_update context ret = fold (\<lambda>kv d. AList.update (fst kv) (snd kv) d) ret context"

text \<open>
  The two functions of the module and the loop over \<^verbatim>\<open>graph.node\<close>. A partition node makes
  \<^verbatim>\<open>execute_onnx\<close> call itself through \<^verbatim>\<open>execute_node\<close>; the nesting depth is bounded by
  the interpreter's recursion limit, which is the fuel: when it is used up the
  interpreter raises \<^verbatim>\<open>RecursionError\<close>.
\<close>

function (sequential) execute_node :: "env \<Rightarrow> nat \<Rightarrow> node \<Rightarrow> addr \<Rightarrow> graph \<Rightarrow> heap \<Rightarrow> error option \<times> heap"
and execute_nodes :: "env \<Rightarrow> nat \<Rightarrow> node list \<Rightarrow> addr \<Rightarrow> graph \<Rightarrow> heap \<Rightarrow> error option \<times> heap"
and execute_onnx :: "env \<Rightarrow> nat \<Rightarrow> model \<Rightarrow> addr \<Rightarrow> bool \<Rightarrow> heap \<Rightarrow> (error + addr) \<times> heap"
where
  "execute_node E fuel node context graph h =
     (if op_type node = ''StreamingDataflowPartition'' then
        (case fuel of
           0 \<Rightarrow> (Some RecursionError, h)
         | Suc fuel' \<Rightarrow>
             (case load_model E node of
                Inl e \<Rightarrow> (Some e, h)
              | Inr model \<Rightarrow>
                  (case execute_onnx E fuel' model context True h of
                     (Inl e, h') \<Rightarrow> (Some e, h')
                   | (Inr ret, h') \<Rightarrow>
                       (None, h'[context := dict_update (h' ! context) (h' ! ret)]))))
      else if domain node = ''finn'' then
        (case execute_custom_node E node (h ! context) graph of
           (eo, c) \<Rightarrow> (eo, h[context := c]))
      else
        (case execute_generic E node (h ! context) graph of
           (eo, c) \<Rightarrow> (eo, h[context := c])))"
| "execute_nodes E fuel [] context graph h = (None, h)"
| "execute_nodes E fuel (node # nodes) context graph h =
     (case execute_node E fuel node context graph h of
        (Some e, h') \<Rightarrow> (Some e, h')
      | (None, h') \<Rightarrow> execute_nodes E fuel nodes context graph h')"
| "execute_onnx E fuel model input_dict return_full_exec_context h =
     (if \<not> check_all_tensor_shapes_specified E model then (Inl UnspecifiedShapes, h)
      else
        (let graph = m_graph model;
             execution_context = length h;
             h1 = h @ [make_empty_exec_context E model]
         in case bind_inputs (map fst (h1 ! input_dict)) (h1 ! input_dict)
                   (h1 ! execution_context) of
              (Some e, c) \<Rightarrow> (Inl e, h1[execution_context := c])
            | (None, c) \<Rightarrow>
                (let h2 = h1[execution_context := c];
                     model_exec_mode = get_metadata_prop E model ''exec_mode''
                 in return_result return_full_exec_context graph execution_context
                      (if model_exec_mode = None \<or> model_exec_mode = Some '''' then
                         execute_nodes E fuel (g_node graph) execution_context graph h2
                       else if model_exec_mode = Some ''remote_pynq'' then
                         (case remote_exec E model (h2 ! execution_context) of
                            (eo, c') \<Rightarrow> (eo, h2[execution_context := c']))
                       else if model_exec_mode = Some ''rtlsim'' then
                         (case rtlsim_exec E model (h2 ! execution_context) of
                            (eo, c') \<Rightarrow> (eo, h2[execution_context := c']))
                       else (Some UnknownExecMode, h2)))))"
  by pat_completeness auto

termination
  by (relation "inv_image (less_than <*lex*> less_than <*lex*> less_than)
        (\<lambda>x. case x of
           Inl (E, fuel, node, context, graph, h) \<Rightarrow> (fuel, 0::nat, 0::nat)
         | Inr (Inl (E, fuel, nodes, context, graph, h)) \<Rightarrow> (fuel, 1, length nodes)
         | Inr (Inr (E, fuel, model, input_dict, full, h)) \<Rightarrow> (fuel, 2, 0))") auto

declare execute_node.simps [simp del] execute_onnx.simps [simp del]

text \<open>
  Lines 153 to 171 on their own, as a function of the store after the inputs are bound:
  the strategy that \<^const>\<open>execute_onnx\<close> selects. It is the conditional inside
  \<^const>\<open>execute_onnx\<close>, named so that statements can refer to it.
\<close>

definition run_strategy :: "env \<Rightarrow> nat \<Rightarrow> model \<Rightarrow> addr \<Rightarrow> heap \<Rightarrow> error option \<times> heap" where
  "run_strategy E fuel model execution_context h2 =
     (let graph = m_graph model;
          model_exec_mode = get_metadata_prop E model ''exec_mode''
      in if model_exec_mode = None \<or> model_exec_mode = Some '''' then
           execute_nodes E fuel (g_node graph) execution_context graph h2
         else if model_exec_mode = Some ''remote_pynq'' then
           (case remote_exec E model (h2 ! execution_context) of
              (eo, c') \<Rightarrow> (eo, h2[execution_context := c']))
         else if model_exec_mode = Some ''rtlsim'' then
           (case rtlsim_exec E model (h2 ! execution_context) of
              (eo, c') \<Rightarrow> (eo, h2[execution_context := c']))
         else (Some UnknownExecMode, h2))"

section \<open>Reference collaborators and example graphs\<close>

definition zeros :: "shape \<Rightarrow> ndarray" where
  "zeros s = \<lparr>shape = s, data = replicate (prod_list s) 0\<rparr>"

text \<open>
  Modelled from the spec: \<^verbatim>\<open>ModelWrapper.make_empty_exec_context\<close> is not under src/. The
  spec's data model says that the context is "created once per top-level execution call by
  allocating a zero/empty buffer for every declared tensor in the Graph (inputs, value-info,
  outputs, and initializer-bound constants)". It is used in the example environment only;
  every general theorem holds for any \<^const>\<open>make_empty_exec_context\<close>.
\<close>

definition spec_make_empty_exec_context :: "model \<Rightarrow> pydict" where
  "spec_make_empty_exec_context m =
     dict_update
       (fold (\<lambda>vi d. AList.update (vi_name vi) (zeros (vi_shape vi)) d)
          (g_input (m_graph m) @ g_value_info (m_graph m) @ g_output (m_graph m)) [])
       (g_initializer (m_graph m))"

text \<open>
  A node with the declared outputs \<open>p\<close>, \<open>q\<close> in a graph that declares them in the order
  \<open>q\<close>, \<open>p\<close>, and a constant \<open>w\<close>.
\<close>

definition node_pq :: node where
  "node_pq = \<lparr>op_type = ''Split'', domain = '''', n_input = [''x''],
              n_output = [''p'', ''q''], n_attribute = []\<rparr>"

definition graph_pq :: graph where
  "graph_pq = \<lparr>g_node = [node_pq],
               g_input = [\<lparr>vi_name = ''x'', vi_shape = [2]\<rparr>],
               g_output = [\<lparr>vi_name = ''q'', vi_shape = [1]\<rparr>, \<lparr>vi_name = ''p'', vi_shape = [1]\<rparr>],
               g_value_info = [],
               g_initializer = [(''w'', \<lparr>shape = [1], data = [9]\<rparr>)]\<rparr>"

definition model_pq :: "string option \<Rightarrow> model" where
  "model_pq mode =
     \<lparr>m_graph = graph_pq,
      m_metadata_props = (case mode of None \<Rightarrow> [] | Some v \<Rightarrow> [(''exec_mode'', v)])\<rparr>"

definition buf_p :: ndarray where "buf_p = \<lparr>shape = [1], data = [5]\<rparr>"

definition buf_q :: ndarray where "buf_q = \<lparr>shape = [1], data = [7]\<rparr>"

definition buf_a :: ndarray where "buf_a = \<lparr>shape = [1], data = [3]\<rparr>"

definition buf_wide :: ndarray where "buf_wide = \<lparr>shape = [3], data = [1, 2, 3]\<rparr>"

definition inputs_ok :: pydict where "inputs_ok = [(''x'', \<lparr>shape = [2], data = [1, 2]\<rparr>)]"

definition inputs_wide :: pydict where "inputs_wide = [(''x'', buf_wide)]"

text \<open>
  A node whose second declared output \<open>b\<close> is declared among the graph's inputs only, so
  that the single-node model declares the output \<open>a\<close> alone; and the same node with its
  outputs in the other order.
\<close>

definition node_ab :: node where
  "node_ab = \<lparr>op_type = ''Split'', domain = '''', n_input = [''x''],
              n_output = [''a'', ''b''], n_attribute = []\<rparr>"

definition node_ba :: node where
  "node_ba = node_ab\<lparr>n_output := [''b'', ''a'']\<rparr>"

definition graph_ab :: graph where
  "graph_ab = \<lparr>g_node = [node_ab],
               g_input = [\<lparr>vi_name = ''x'', vi_shape = [2]\<rparr>, \<lparr>vi_name = ''b'', vi_shape = [1]\<rparr>],
               g_output = [\<lparr>vi_name = ''a'', vi_shape = [1]\<rparr>],
               g_value_info = [],
               g_initializer = []\<rparr>"

definition model_ab :: model where
  "model_ab = \<lparr>m_graph = graph_ab, m_metadata_props = []\<rparr>"

text \<open>A partition node that stands for the model of \<^const>\<open>graph_pq\<close>, and a custom node.\<close>

definition node_part :: node where
  "node_part = \<lparr>op_type = ''StreamingDataflowPartition'', domain = ''finn'',
                n_input = [''x''], n_output = [''p'', ''q''],
                n_attribute = [(''model'', ''child.onnx'')]\<rparr>"

definition node_custom :: node where
  "node_custom = \<lparr>op_type = ''Im2Col'', domain = ''finn'', n_input = [''x''],
                  n_output = [''p''], n_attribute = []\<rparr>"

definition graph_part :: graph where
  "graph_part = \<lparr>g_node = [node_part],
                 g_input = [\<lparr>vi_name = ''x'', vi_shape = [2]\<rparr>],
                 g_output = [\<lparr>vi_name = ''p'', vi_shape = [1]\<rparr>, \<lparr>vi_name = ''q'', vi_shape = [1]\<rparr>],
                 g_value_info = [],
                 g_initializer = []\<rparr>"

definition model_part :: model where
  "model_part = \<lparr>m_graph = graph_part, m_metadata_props = []\<rparr>"

text \<open>The caller's context at the partition node: the input \<open>x\<close> is bound, the outputs are empty.\<close>

definition caller_ctx :: pydict where
  "caller_ctx = [(''x'', \<lparr>shape = [2], data = [1, 2]\<rparr>), (''p'', zeros [1]), (''q'', zeros [1])]"

text \<open>
  The example environment: every graph is shape-complete, the metadata property is looked
  up in the model, the file \<^verbatim>\<open>child.onnx\<close> holds the model of \<^const>\<open>graph_pq\<close>, the generic
  backend returns the given list, and the other collaborators leave the context as it is.
\<close>

definition demo_env :: "ndarray list \<Rightarrow> env" where
  "demo_env outs =
     \<lparr>check_all_tensor_shapes_specified = (\<lambda>m. True),
      make_empty_exec_context = spec_make_empty_exec_context,
      get_metadata_prop = (\<lambda>m k. map_of (m_metadata_props m) k),
      load_model = (\<lambda>n. if map_of (n_attribute n) ''model'' = Some ''child.onnx''
                          then Inr (model_pq None)
                          else Inl (CollaboratorError ''model not found'')),
      execute_custom_node = (\<lambda>n c g. (None, c)),
      sess_run = (\<lambda>n ins os d. Inr outs),
      remote_exec = (\<lambda>m c. (None, c)),
      rtlsim_exec = (\<lambda>m c. (None, c))\<rparr>"

section \<open>Properties of the generic-backend path\<close>

text \<open>
  The inner loop keeps the index it was given when no declaration carries the name, and
  finds the position of the declaration when the declared names are distinct.
\<close>

lemma find_list_ind_no_match:
  "outp \<notin> vi_name ` set vs \<Longrightarrow> find_list_ind outp vs i list_ind = list_ind"
  by (induction vs arbitrary: i list_ind) auto

lemma find_list_ind_match:
  "distinct (map vi_name vs) \<Longrightarrow> j < length vs \<Longrightarrow> vi_name (vs ! j) = outp \<Longrightarrow>
   find_list_ind outp vs i list_ind = Some (i + j)"
proof (induction vs arbitrary: i j list_ind)
  case Nil
  then show ?case by simp
next
  case (Cons v vs)
  show ?case
  proof (cases j)
    case 0
    with Cons.prems have "outp = vi_name v" "outp \<notin> vi_name ` set vs" by auto
    then show ?thesis using 0 by (simp add: find_list_ind_no_match)
  next
    case (Suc j')
    with Cons.prems have "vi_name v \<noteq> outp" by auto
    moreover have "find_list_ind outp vs (Suc i) list_ind = Some (Suc i + j')"
      using Cons.prems Suc by (intro Cons.IH) auto
    ultimately show ?thesis using Suc by auto
  qed
qed

lemma find_list_ind_last:
  "outp \<in> vi_name ` set vs \<Longrightarrow>
   \<exists>j<length vs. vi_name (vs ! j) = outp \<and>
     (\<forall>j'<length vs. vi_name (vs ! j') = outp \<longrightarrow> j' \<le> j) \<and>
     find_list_ind outp vs i list_ind = Some (i + j)"
proof (induction vs arbitrary: i list_ind)
  case Nil
  then show ?case by simp
next
  case (Cons v vs)
  show ?case
  proof (cases "outp \<in> vi_name ` set vs")
    case True
    from Cons.IH[OF True, of "Suc i" "if outp = vi_name v then Some i else list_ind"]
    obtain j where j: "j < length vs" "vi_name (vs ! j) = outp"
      "\<forall>j'<length vs. vi_name (vs ! j') = outp \<longrightarrow> j' \<le> j"
      "find_list_ind outp vs (Suc i) (if outp = vi_name v then Some i else list_ind) = Some (Suc i + j)"
      by blast
    have "\<forall>j'<length (v # vs). vi_name ((v # vs) ! j') = outp \<longrightarrow> j' \<le> Suc j"
    proof (intro allI impI)
      fix j' assume "j' < length (v # vs)" "vi_name ((v # vs) ! j') = outp"
      then show "j' \<le> Suc j" using j(3) by (cases j') auto
    qed
    with j(1,2,4) show ?thesis
      by (intro exI[of _ "Suc j"]) simp
  next
    case False
    with Cons.prems have v: "outp = vi_name v" by auto
    have "\<forall>j'<length (v # vs). vi_name ((v # vs) ! j') = outp \<longrightarrow> j' \<le> 0"
    proof (intro allI impI)
      fix j' assume "j' < length (v # vs)" "vi_name ((v # vs) ! j') = outp"
      then show "j' \<le> 0" using False by (cases j') auto
    qed
    moreover have "find_list_ind outp (v # vs) i list_ind = Some (i + 0)"
      using v False by (simp add: find_list_ind_no_match)
    ultimately show ?thesis using v
      by (intro exI[of _ 0]) simp
  qed
qed

lemma store_outputs_by_name:
  assumes "set outps \<subseteq> vi_name ` set node_outputs"
      and "length output_list = length node_outputs"
      and "\<forall>j<length node_outputs.
             map_option shape (map_of ctx (vi_name (node_outputs ! j))) =
             Some (shape (output_list ! j))"
  shows "\<exists>ctx'. store_outputs outps node_outputs output_list list_ind ctx = (None, ctx') \<and>
           (\<forall>k. k \<notin> set outps \<longrightarrow> map_of ctx' k = map_of ctx k) \<and>
           (\<forall>k\<in>set outps.
              \<exists>j<length node_outputs. vi_name (node_outputs ! j) = k \<and>
                (\<forall>j'<length node_outputs. vi_name (node_outputs ! j') = k \<longrightarrow> j' \<le> j) \<and>
                map_of ctx' k = Some (output_list ! j))"
  using assms
proof (induction outps arbitrary: list_ind ctx)
  case Nil
  then show ?case by simp
next
  case (Cons outp outps)
  from Cons.prems(1) have "outp \<in> vi_name ` set node_outputs" by simp
  from find_list_ind_last[OF this, of 0 list_ind]
  obtain j where j: "j < length node_outputs" "vi_name (node_outputs ! j) = outp"
    "\<forall>j'<length node_outputs. vi_name (node_outputs ! j') = outp \<longrightarrow> j' \<le> j"
    and ind: "find_list_ind outp node_outputs 0 list_ind = Some j"
    by auto
  from Cons.prems(3) j obtain t where t: "map_of ctx outp = Some t" "shape t = shape (output_list ! j)"
    by (metis map_option_eq_Some)
  let ?c = "AList.update outp (output_list ! j) ctx"
  have shapes: "\<forall>i<length node_outputs.
             map_option shape (map_of ?c (vi_name (node_outputs ! i))) = Some (shape (output_list ! i))"
  proof (intro allI impI)
    fix i assume i: "i < length node_outputs"
    show "map_option shape (map_of ?c (vi_name (node_outputs ! i))) = Some (shape (output_list ! i))"
    proof (cases "vi_name (node_outputs ! i) = outp")
      case True
      with Cons.prems(3) i t have "shape (output_list ! i) = shape (output_list ! j)"
        by (metis map_option_eq_Some option.inject)
      then show ?thesis using True by (simp add: update_conv')
    next
      case False
      then show ?thesis using Cons.prems(3) i by (simp add: update_conv')
    qed
  qed
  from Cons.IH[OF _ Cons.prems(2) shapes, of "Some j"] Cons.prems(1)
  obtain ctx' where c': "store_outputs outps node_outputs output_list (Some j) ?c = (None, ctx')"
    and other: "\<forall>k. k \<notin> set outps \<longrightarrow> map_of ctx' k = map_of ?c k"
    and stored: "\<forall>k\<in>set outps.
              \<exists>j<length node_outputs. vi_name (node_outputs ! j) = k \<and>
                (\<forall>j'<length node_outputs. vi_name (node_outputs ! j') = k \<longrightarrow> j' \<le> j) \<and>
                map_of ctx' k = Some (output_list ! j)"
    by auto
  have run: "store_outputs (outp # outps) node_outputs output_list list_ind ctx = (None, ctx')"
    using ind t j Cons.prems(2) c' by simp
  have o: "\<forall>k. k \<notin> set (outp # outps) \<longrightarrow> map_of ctx' k = map_of ctx k"
    using other by (simp add: update_conv')
  have s: "\<forall>k\<in>set (outp # outps).
              \<exists>j<length node_outputs. vi_name (node_outputs ! j) = k \<and>
                (\<forall>j'<length node_outputs. vi_name (node_outputs ! j') = k \<longrightarrow> j' \<le> j) \<and>
                map_of ctx' k = Some (output_list ! j)"
  proof
    fix k assume k: "k \<in> set (outp # outps)"
    show "\<exists>j<length node_outputs. vi_name (node_outputs ! j) = k \<and>
                (\<forall>j'<length node_outputs. vi_name (node_outputs ! j') = k \<longrightarrow> j' \<le> j) \<and>
                map_of ctx' k = Some (output_list ! j)"
    proof (cases "k \<in> set outps")
      case True
      with stored show ?thesis by blast
    next
      case False
      with k have "k = outp" by simp
      moreover from False other have "map_of ctx' k = map_of ?c k" by blast
      ultimately have "map_of ctx' k = Some (output_list ! j)" by (simp add: update_conv')
      with j \<open>k = outp\<close> show ?thesis by blast
    qed
  qed
  from run o s show ?case by blast
qed

lemma list_all2_shapes_nth:
  assumes "list_all2 (\<lambda>v buf. map_option shape (map_of ctx (vi_name v)) = Some (shape buf)) vs bufs"
  shows "length bufs = length vs"
    and "\<forall>j<length vs. map_option shape (map_of ctx (vi_name (vs ! j))) = Some (shape (bufs ! j))"
  using assms by (auto simp: list_all2_conv_all_nth)

text \<open>
  C1 (amended). The generic-backend path matches each declared output name of the node
  against the declarations selected for the single-node model, and takes the buffer at the
  position of the matching declaration in the backend's answer: it reconciles the order of
  the node's output list with the order of the declarations, and it reads the backend's
  answer in the order of the declarations. When every declared output name has a
  declaration among the graph's outputs or value-info and the backend answers one buffer
  per selected declaration with the pre-allocated shape, the step succeeds, every declared
  output name receives the buffer at the position of its (last) declaration, whatever the
  position of the name in the node's output list, and every other entry of the context is
  unchanged.
\<close>

theorem generic_outputs_stored_by_name:
  assumes "make_input_dict (n_input node) ctx [] = Inr input_dict"
      and "sess_run E node (select_node_inputs node graph) (select_node_outputs node graph)
             input_dict = Inr output_list"
      and "set (n_output node) \<subseteq> vi_name ` (set (g_output graph) \<union> set (g_value_info graph))"
      and "list_all2 (\<lambda>v buf. map_option shape (map_of ctx (vi_name v)) = Some (shape buf))
             (select_node_outputs node graph) output_list"
  shows "\<exists>ctx'. execute_generic E node ctx graph = (None, ctx') \<and>
           (\<forall>k. k \<notin> set (n_output node) \<longrightarrow> map_of ctx' k = map_of ctx k) \<and>
           (\<forall>k\<in>set (n_output node).
              \<exists>j<length (select_node_outputs node graph).
                vi_name (select_node_outputs node graph ! j) = k \<and>
                (\<forall>j'<length (select_node_outputs node graph).
                   vi_name (select_node_outputs node graph ! j') = k \<longrightarrow> j' \<le> j) \<and>
                map_of ctx' k = Some (output_list ! j))"
proof -
  have sub: "set (n_output node) \<subseteq> vi_name ` set (select_node_outputs node graph)"
    using assms(3) by (auto simp: select_node_outputs_def)
  have eq: "execute_generic E node ctx graph =
      store_outputs (n_output node) (select_node_outputs node graph) output_list None ctx"
    using assms(1,2) by (simp add: execute_generic_def)
  show ?thesis
    unfolding eq
    using store_outputs_by_name[OF sub list_all2_shapes_nth[OF assms(4)]] .
qed

theorem generic_outputs_stored_by_name_witness:
  "(\<exists>ctx'. execute_generic (demo_env [buf_q, buf_p]) node_pq
             (spec_make_empty_exec_context (model_pq None)) graph_pq = (None, ctx') \<and>
           map_of ctx' ''p'' = Some buf_p \<and> map_of ctx' ''q'' = Some buf_q \<and>
           map_of ctx' ''x'' = Some (zeros [2]))
   \<and> n_output node_pq = [''p'', ''q'']
   \<and> map vi_name (select_node_outputs node_pq graph_pq) = [''q'', ''p'']"
proof -
  let ?ctx = "spec_make_empty_exec_context (model_pq None)"
  let ?E = "demo_env [buf_q, buf_p]"
  let ?nos = "select_node_outputs node_pq graph_pq"
  have 1: "make_input_dict (n_input node_pq) ?ctx [] = Inr [(''x'', zeros [2])]"
    by code_simp
  have 2: "sess_run ?E node_pq (select_node_inputs node_pq graph_pq) ?nos [(''x'', zeros [2])]
             = Inr [buf_q, buf_p]"
    by (simp add: demo_env_def)
  have 3: "set (n_output node_pq) \<subseteq> vi_name ` (set (g_output graph_pq) \<union> set (g_value_info graph_pq))"
    by code_simp
  have 4: "list_all2 (\<lambda>v buf. map_option shape (map_of ?ctx (vi_name v)) = Some (shape buf))
             ?nos [buf_q, buf_p]"
    by code_simp
  have names: "n_output node_pq = [''p'', ''q'']" "map vi_name ?nos = [''q'', ''p'']"
    by code_simp+
  have nos: "length ?nos = 2" "vi_name (?nos ! 0) = ''q''" "vi_name (?nos ! 1) = ''p''"
    by code_simp+
  have x: "map_of ?ctx ''x'' = Some (zeros [2])" by code_simp
  from generic_outputs_stored_by_name[OF 1 2 3 4]
  obtain ctx' where r: "execute_generic ?E node_pq ?ctx graph_pq = (None, ctx')"
    and o: "\<And>k. k \<notin> set (n_output node_pq) \<Longrightarrow> map_of ctx' k = map_of ?ctx k"
    and s: "\<And>k. k \<in> set (n_output node_pq) \<Longrightarrow>
              \<exists>j<length ?nos. vi_name (?nos ! j) = k \<and> map_of ctx' k = Some ([buf_q, buf_p] ! j)"
    by blast
  from s[of "''p''"] obtain j where "j < 2" "vi_name (?nos ! j) = ''p''"
      "map_of ctx' ''p'' = Some ([buf_q, buf_p] ! j)"
    by (auto simp: names nos)
  then have p: "map_of ctx' ''p'' = Some buf_p"
    using nos by (cases j) (auto simp: less_Suc_eq numeral_2_eq_2)
  from s[of "''q''"] obtain j where "j < 2" "vi_name (?nos ! j) = ''q''"
      "map_of ctx' ''q'' = Some ([buf_q, buf_p] ! j)"
    by (auto simp: names nos)
  then have q: "map_of ctx' ''q'' = Some buf_q"
    using nos by (cases j) (auto simp: less_Suc_eq numeral_2_eq_2)
  have "map_of ctx' ''x'' = Some (zeros [2])"
    using o[of "''x''"] x by (simp add: names)
  with r p q names show ?thesis by blast
qed

text \<open>
  The unamended statement fails for a backend that answers in the order of the node's own
  output list: the node declares \<open>p\<close>, \<open>q\<close>, the graph declares \<open>q\<close>, \<open>p\<close>, the backend
  answers the buffer of \<open>p\<close> first and the buffer of \<open>q\<close> second, and \<open>p\<close> receives the
  buffer of \<open>q\<close>.
\<close>

theorem generic_outputs_stored_by_name_counterexample:
  "n_output node_pq = [''p'', ''q''] \<and>
   map vi_name (select_node_outputs node_pq graph_pq) = [''q'', ''p''] \<and>
   sess_run (demo_env [buf_p, buf_q]) node_pq (select_node_inputs node_pq graph_pq)
     (select_node_outputs node_pq graph_pq) [(''x'', zeros [2])] = Inr [buf_p, buf_q] \<and>
   map_of (zip (n_output node_pq) [buf_p, buf_q]) ''p'' = Some buf_p \<and>
   fst (execute_generic (demo_env [buf_p, buf_q]) node_pq
          (spec_make_empty_exec_context (model_pq None)) graph_pq) = None \<and>
   map_of (snd (execute_generic (demo_env [buf_p, buf_q]) node_pq
                  (spec_make_empty_exec_context (model_pq None)) graph_pq)) ''p'' = Some buf_q \<and>
   buf_q \<noteq> buf_p"
  by code_simp

lemma store_outputs_shape_mismatch:
  "find_list_ind outp node_outputs 0 list_ind = Some i \<Longrightarrow> i < length output_list \<Longrightarrow>
   map_of ctx outp = Some t \<Longrightarrow> shape (output_list ! i) \<noteq> shape t \<Longrightarrow>
   store_outputs (outp # outps) node_outputs output_list list_ind ctx = (Some AttributeError, ctx)"
  by simp

text \<open>
  C3. When the shape of the buffer the backend returned for an output differs from the shape
  of the context's entry, the call fails, but not with the error that reports both shapes:
  building the message raises \<^verbatim>\<open>AttributeError\<close>.
\<close>

theorem output_shape_mismatch_raises_AttributeError:
  "fst (execute_generic (demo_env [buf_q, buf_wide]) node_pq
          (spec_make_empty_exec_context (model_pq None)) graph_pq) = Some AttributeError \<and>
   fst (execute_generic (demo_env [buf_q, buf_wide]) node_pq
          (spec_make_empty_exec_context (model_pq None)) graph_pq)
     \<noteq> Some (OutputShapesDisagree [3] [1]) \<and>
   shape buf_wide = [3] \<and>
   map_option shape (map_of (spec_make_empty_exec_context (model_pq None)) ''p'') = Some [1]"
  by code_simp

text \<open>
  C9. The reconciliation loop relies on every declared output name having a declaration
  among the graph's outputs or value-info. When the first declared output has none, the
  index is unbound and the step fails with the interpreter's \<^verbatim>\<open>UnboundLocalError\<close>. When an
  output \<open>p\<close> is matched at position \<open>i\<close> and the next output \<open>q\<close> has no declaration, the
  index \<open>i\<close> is used again: if the shapes agree, the buffer at position \<open>i\<close> is stored under
  \<open>q\<close> as well, and the loop goes on without an error.
\<close>

theorem reconciliation_needs_declared_outputs:
  "(n_output node = outp # outps \<and>
    outp \<notin> vi_name ` (set (g_output graph) \<union> set (g_value_info graph)) \<and>
    make_input_dict (n_input node) ctx [] = Inr input_dict \<and>
    sess_run E node (select_node_inputs node graph) (select_node_outputs node graph) input_dict
      = Inr output_list
    \<longrightarrow> execute_generic E node ctx graph = (Some UnboundLocalError, ctx)) \<and>
   (distinct (map vi_name node_outputs) \<and> i < length node_outputs \<and>
    vi_name (node_outputs ! i) = p \<and> q \<notin> vi_name ` set node_outputs \<and>
    i < length bufs \<and> map_of ctx p = Some tp \<and> shape (bufs ! i) = shape tp \<and>
    map_of ctx q = Some tq \<and> shape (bufs ! i) = shape tq
    \<longrightarrow> store_outputs (p # q # rest) node_outputs bufs list_ind ctx =
        store_outputs rest node_outputs bufs (Some i)
          (AList.update q (bufs ! i) (AList.update p (bufs ! i) ctx)))"
proof (intro conjI impI)
  assume a: "n_output node = outp # outps \<and>
    outp \<notin> vi_name ` (set (g_output graph) \<union> set (g_value_info graph)) \<and>
    make_input_dict (n_input node) ctx [] = Inr input_dict \<and>
    sess_run E node (select_node_inputs node graph) (select_node_outputs node graph) input_dict
      = Inr output_list"
  then have "outp \<notin> vi_name ` set (select_node_outputs node graph)"
    by (auto simp: select_node_outputs_def)
  then have "find_list_ind outp (select_node_outputs node graph) 0 None = None"
    by (rule find_list_ind_no_match)
  then show "execute_generic E node ctx graph = (Some UnboundLocalError, ctx)"
    using a by (simp add: execute_generic_def)
next
  assume b: "distinct (map vi_name node_outputs) \<and> i < length node_outputs \<and>
    vi_name (node_outputs ! i) = p \<and> q \<notin> vi_name ` set node_outputs \<and>
    i < length bufs \<and> map_of ctx p = Some tp \<and> shape (bufs ! i) = shape tp \<and>
    map_of ctx q = Some tq \<and> shape (bufs ! i) = shape tq"
  then have fp: "find_list_ind p node_outputs 0 list_ind = Some i"
    using find_list_ind_match[of node_outputs i p 0 list_ind] by simp
  have fq: "find_list_ind q node_outputs 0 (Some i) = Some i"
    using b by (simp add: find_list_ind_no_match)
  have "p \<noteq> q" using b by (metis nth_mem imageI)
  then have "map_of (AList.update p (bufs ! i) ctx) q = Some tq"
    using b by (simp add: update_conv')
  moreover have "shape tp = shape tq" using b by metis
  ultimately show "store_outputs (p # q # rest) node_outputs bufs list_ind ctx =
        store_outputs rest node_outputs bufs (Some i)
          (AList.update q (bufs ! i) (AList.update p (bufs ! i) ctx))"
    using fp fq b by simp
qed

theorem reconciliation_needs_declared_outputs_witness:
  "execute_generic (demo_env [buf_a]) node_ba (spec_make_empty_exec_context model_ab) graph_ab
     = (Some UnboundLocalError, spec_make_empty_exec_context model_ab) \<and>
   store_outputs [''a'', ''b''] (select_node_outputs node_ab graph_ab) [buf_a] None
       (spec_make_empty_exec_context model_ab)
     = (None, [(''x'', zeros [2]), (''b'', buf_a), (''a'', buf_a)])"
proof -
  let ?ctx = "spec_make_empty_exec_context model_ab"
  have a: "n_output node_ba = ''b'' # [''a''] \<and>
    ''b'' \<notin> vi_name ` (set (g_output graph_ab) \<union> set (g_value_info graph_ab)) \<and>
    make_input_dict (n_input node_ba) ?ctx [] = Inr [(''x'', zeros [2])] \<and>
    sess_run (demo_env [buf_a]) node_ba (select_node_inputs node_ba graph_ab)
      (select_node_outputs node_ba graph_ab) [(''x'', zeros [2])] = Inr [buf_a]"
    by code_simp
  have b: "distinct (map vi_name (select_node_outputs node_ab graph_ab)) \<and>
    0 < length (select_node_outputs node_ab graph_ab) \<and>
    vi_name (select_node_outputs node_ab graph_ab ! 0) = ''a'' \<and>
    ''b'' \<notin> vi_name ` set (select_node_outputs node_ab graph_ab) \<and>
    0 < length [buf_a] \<and> map_of ?ctx ''a'' = Some (zeros [1]) \<and>
    shape ([buf_a] ! 0) = shape (zeros [1]) \<and>
    map_of ?ctx ''b'' = Some (zeros [1]) \<and> shape ([buf_a] ! 0) = shape (zeros [1])"
    by code_simp
  have c: "store_outputs [] (select_node_outputs node_ab graph_ab) [buf_a] (Some 0)
          (AList.update ''b'' ([buf_a] ! 0) (AList.update ''a'' ([buf_a] ! 0) ?ctx))
       = (None, [(''x'', zeros [2]), (''b'', buf_a), (''a'', buf_a)])"
    by code_simp
  note t = reconciliation_needs_declared_outputs[of node_ba "''b''" "[''a'']" graph_ab ?ctx
      "[(''x'', zeros [2])]" "demo_env [buf_a]" "[buf_a]"
      "select_node_outputs node_ab graph_ab" 0 "''a''" "''b''" "[buf_a]" "zeros [1]" "zeros [1]"
      "[]" None]
  from t a b c show ?thesis by simp
qed

section \<open>Binding the inputs\<close>

lemma bind_inputs_step:
  "map_of ec n = Some t \<Longrightarrow> map_of d n = Some v \<Longrightarrow>
   bind_inputs (n # ks) d ec =
     (if shape t = shape v then bind_inputs ks d (AList.update n v ec)
      else (Some (InputShapeMismatch n (shape t) (shape v)), ec))"
  by simp

lemma bind_inputs_skip:
  "map_of ec k = None \<Longrightarrow> bind_inputs (ks1 @ k # ks2) d ec = bind_inputs (ks1 @ ks2) d ec"
proof (induction ks1 arbitrary: ec)
  case Nil
  then show ?case by simp
next
  case (Cons a ks1)
  show ?case
  proof (cases "map_of ec a")
    case None
    then show ?thesis using Cons by simp
  next
    case (Some t)
    with Cons.prems have ne: "a \<noteq> k" by auto
    have "bind_inputs (ks1 @ k # ks2) d (AList.update a v ec) =
          bind_inputs (ks1 @ ks2) d (AList.update a v ec)" for v
      using Cons.prems ne by (intro Cons.IH) (simp add: update_conv')
    then show ?thesis using Some by (simp split: option.splits)
  qed
qed

lemma bind_inputs_other_dict:
  "map_of ec k = None \<Longrightarrow> \<forall>k'. k' \<noteq> k \<longrightarrow> map_of d k' = map_of d' k' \<Longrightarrow>
   bind_inputs ks d ec = bind_inputs ks d' ec"
proof (induction ks arbitrary: ec)
  case Nil
  then show ?case by simp
next
  case (Cons a ks)
  show ?case
  proof (cases "map_of ec a")
    case None
    then show ?thesis using Cons by simp
  next
    case (Some t)
    with Cons.prems have ne: "a \<noteq> k" by auto
    with Cons.prems have eq: "map_of d a = map_of d' a" by simp
    have "bind_inputs ks d (AList.update a v ec) = bind_inputs ks d' (AList.update a v ec)" for v
      using Cons.prems ne by (intro Cons.IH) (simp_all add: update_conv')
    then show ?thesis using Some eq by (simp split: option.splits)
  qed
qed

text \<open>
  C8. A binding whose name is absent from the execution context is ignored by the binding
  loop of \<^verbatim>\<open>execute_onnx\<close>: the loop raises the same error or none, and leaves the same
  execution context, as it does on the input dictionary without that binding.
\<close>

theorem binding_absent_name_is_ignored:
  "map_of execution_context k = None \<Longrightarrow>
   bind_inputs (map fst (d1 @ (k, v) # d2)) (d1 @ (k, v) # d2) execution_context =
   bind_inputs (map fst (d1 @ d2)) (d1 @ d2) execution_context"
proof -
  assume a: "map_of execution_context k = None"
  have "bind_inputs (map fst (d1 @ (k, v) # d2)) (d1 @ (k, v) # d2) execution_context =
        bind_inputs (map fst d1 @ map fst d2) (d1 @ (k, v) # d2) execution_context"
    using bind_inputs_skip[OF a, of "map fst d1" "map fst d2"] by simp
  also have "\<dots> = bind_inputs (map fst d1 @ map fst d2) (d1 @ d2) execution_context"
    by (rule bind_inputs_other_dict[OF a]) (auto simp: map_add_def split: option.splits)
  finally show ?thesis by simp
qed

theorem binding_absent_name_is_ignored_witness:
  "map_of (spec_make_empty_exec_context (model_pq None)) ''unknown'' = None \<and>
   bind_inputs (map fst (inputs_ok @ (''unknown'', buf_wide) # [])) (inputs_ok @ (''unknown'', buf_wide) # [])
     (spec_make_empty_exec_context (model_pq None)) =
   bind_inputs (map fst (inputs_ok @ [])) (inputs_ok @ []) (spec_make_empty_exec_context (model_pq None)) \<and>
   fst (bind_inputs (map fst (inputs_ok @ [])) (inputs_ok @ []) (spec_make_empty_exec_context (model_pq None)))
     = None"
proof -
  have a: "map_of (spec_make_empty_exec_context (model_pq None)) ''unknown'' = None"
    by code_simp
  have b: "fst (bind_inputs (map fst (inputs_ok @ [])) (inputs_ok @ []) (spec_make_empty_exec_context (model_pq None)))
     = None"
    by code_simp
  from binding_absent_name_is_ignored[OF a, of inputs_ok buf_wide "[]"] a b show ?thesis by simp
qed

text \<open>
  C4. A binding whose shape differs from the pre-allocated shape makes the call fail with
  the shape-mismatch error, and the value is not stored; but the message names the
  pre-allocated shape as the one found and the shape of the bound value as the one
  expected. Here the graph declares \<open>x\<close> with shape \<open>[2]\<close> and the caller binds a buffer of
  shape \<open>[3]\<close>.
\<close>

theorem input_shape_mismatch_labels_swapped:
  "map_option shape (map_of (make_empty_exec_context (demo_env [buf_q, buf_p]) (model_pq None)) ''x'')
     = Some [2] \<and>
   map_option shape (map_of inputs_wide ''x'') = Some [3] \<and>
   fst (execute_onnx (demo_env [buf_q, buf_p]) 0 (model_pq None) 0 False [inputs_wide])
     = Inl (InputShapeMismatch ''x'' [2] [3])"
  by code_simp

section \<open>The store: what a call can change\<close>

text \<open>
  \<^const>\<open>execute_node\<close> changes, among the dictionaries that exist when it is called, the
  context only; \<^const>\<open>execute_onnx\<close> changes none of them, and the dictionary it returns is
  one it has allocated.
\<close>

lemma return_result_frame:
  assumes "length h0 \<le> length (snd r)" "\<forall>b<length h0. snd r ! b = h0 ! b" "ec < length (snd r)"
  shows "length h0 \<le> length (snd (return_result full graph ec r)) \<and>
         (\<forall>b<length h0. snd (return_result full graph ec r) ! b = h0 ! b) \<and>
         (\<forall>ret. fst (return_result full graph ec r) = Inr ret \<longrightarrow>
            ret < length (snd (return_result full graph ec r)) \<and>
            (if full then ret = ec else ret = length (snd r)))"
  using assms
  by (cases r) (auto simp: return_result_def nth_append split: option.splits sum.splits)

lemma heap_frame:
  "c < length h \<Longrightarrow>
     length h \<le> length (snd (execute_node E fuel node c graph h)) \<and>
     (\<forall>b<length h. b \<noteq> c \<longrightarrow> snd (execute_node E fuel node c graph h) ! b = h ! b)"
  "c < length h \<Longrightarrow>
     length h \<le> length (snd (execute_nodes E fuel nodes c graph h)) \<and>
     (\<forall>b<length h. b \<noteq> c \<longrightarrow> snd (execute_nodes E fuel nodes c graph h) ! b = h ! b)"
  "length h \<le> length (snd (execute_onnx E fuel model input_dict full h)) \<and>
   (\<forall>b<length h. snd (execute_onnx E fuel model input_dict full h) ! b = h ! b) \<and>
   (\<forall>ret. fst (execute_onnx E fuel model input_dict full h) = Inr ret \<longrightarrow>
        ret < length (snd (execute_onnx E fuel model input_dict full h)) \<and> length h \<le> ret \<and>
        (full \<longrightarrow> ret = length h))"
proof (induct E fuel node c graph h and E fuel nodes c graph h and E fuel model input_dict full h
       rule: execute_node_execute_nodes_execute_onnx.induct)
  case (1 E fuel node c graph h)
  show ?case
  proof (cases "op_type node = ''StreamingDataflowPartition''")
    case False
    then show ?thesis using 1(2)
      by (auto simp: execute_node.simps split: prod.splits)
  next
    case part: True
    show ?thesis
    proof (cases fuel)
      case 0
      then show ?thesis using part by (simp add: execute_node.simps)
    next
      case (Suc fuel')
      show ?thesis
      proof (cases "load_model E node")
        case (Inl e)
        then show ?thesis using part Suc by (simp add: execute_node.simps)
      next
        case (Inr model)
        note IH = 1(1)[OF part Suc Inr]
        obtain r h' where r: "execute_onnx E fuel' model c True h = (r, h')"
          by (cases "execute_onnx E fuel' model c True h")
        with IH have h': "length h \<le> length h'" "\<forall>b<length h. h' ! b = h ! b" by auto
        show ?thesis using part Suc Inr r h' 1(2)
          by (cases r) (auto simp: execute_node.simps)
      qed
    qed
  qed
next
  case (2 E fuel c graph h)
  then show ?case by simp
next
  case (3 E fuel node nodes c graph h)
  obtain eo h' where r: "execute_node E fuel node c graph h = (eo, h')"
    by (cases "execute_node E fuel node c graph h")
  with 3(1) 3(3) have h': "length h \<le> length h'" "\<forall>b<length h. b \<noteq> c \<longrightarrow> h' ! b = h ! b" by auto
  show ?case
  proof (cases eo)
    case None
    have "c < length h'" using h' 3(3) by simp
    from 3(2)[OF r[symmetric] None this] show ?thesis using r None h' by auto
  next
    case (Some e)
    then show ?thesis using r h' by simp
  qed
next
  case (4 E fuel model input_dict full h)
  show ?case
  proof (cases "check_all_tensor_shapes_specified E model")
    case False
    then show ?thesis by (simp add: execute_onnx.simps)
  next
    case chk: True
    let ?h1 = "h @ [make_empty_exec_context E model]"
    obtain eo c where b: "bind_inputs (map fst (?h1 ! input_dict)) (?h1 ! input_dict) (?h1 ! length h) = (eo, c)"
      by (cases "bind_inputs (map fst (?h1 ! input_dict)) (?h1 ! input_dict) (?h1 ! length h)")
    show ?thesis
    proof (cases eo)
      case (Some e)
      then show ?thesis using chk b by (auto simp: execute_onnx.simps Let_def nth_append)
    next
      case None
      let ?h2 = "?h1[length h := c]"
      let ?mode = "get_metadata_prop E model ''exec_mode''"
      define s where "s = (if ?mode = None \<or> ?mode = Some '''' then
                         execute_nodes E fuel (g_node (m_graph model)) (length h) (m_graph model) ?h2
                       else if ?mode = Some ''remote_pynq'' then
                         (case remote_exec E model (?h2 ! length h) of
                            (eo, c') \<Rightarrow> (eo, ?h2[length h := c']))
                       else if ?mode = Some ''rtlsim'' then
                         (case rtlsim_exec E model (?h2 ! length h) of
                            (eo, c') \<Rightarrow> (eo, ?h2[length h := c']))
                       else (Some UnknownExecMode, ?h2))"
      have eq: "execute_onnx E fuel model input_dict full h = return_result full (m_graph model) (length h) s"
        using chk b None by (simp add: execute_onnx.simps Let_def s_def)
      have IH: "length ?h2 \<le> length (snd (execute_nodes E fuel (g_node (m_graph model)) (length h) (m_graph model) ?h2)) \<and>
     (\<forall>b<length ?h2. b \<noteq> length h \<longrightarrow> snd (execute_nodes E fuel (g_node (m_graph model)) (length h) (m_graph model) ?h2) ! b = ?h2 ! b)"
        if "?mode = None \<or> ?mode = Some ''''"
        using 4[of "m_graph model" "length h" ?h1 None c ?h2 ?mode] chk b None that by simp
      have s: "length h < length (snd s) \<and> (\<forall>b<length h. snd s ! b = h ! b)"
      proof (cases "?mode = None \<or> ?mode = Some ''''")
        case True
        with IH show ?thesis by (auto simp: nth_append s_def)
      next
        case False
        then show ?thesis by (auto simp: nth_append s_def split: prod.splits)
      qed
      then have "length h \<le> length (snd s)" "\<forall>b<length h. snd s ! b = h ! b" "length h < length (snd s)"
        by auto
      from return_result_frame[OF this, of full "m_graph model"] s
      show ?thesis unfolding eq by (auto split: if_splits)
    qed
  qed
qed

text \<open>
  C10. A top-level call never changes the dictionary of input bindings it is given: whether
  the call succeeds or fails, that dictionary holds the same keys and the same buffers
  afterwards. The bound buffers are assigned into the execution context, which is a
  dictionary of its own, and only that one is written afterwards.
\<close>

theorem execute_onnx_keeps_input_dict:
  "input_dict < length h \<Longrightarrow>
   snd (execute_onnx E fuel model input_dict full h) ! input_dict = h ! input_dict"
  using heap_frame(3)[of h E fuel model input_dict full] by simp

theorem execute_onnx_keeps_input_dict_witness:
  "(0::nat) < length [inputs_ok] \<and>
   snd (execute_onnx (demo_env [buf_q, buf_p]) 0 (model_pq None) 0 False [inputs_ok]) ! 0 = inputs_ok \<and>
   snd (execute_onnx (demo_env [buf_q, buf_p]) 0 (model_pq None) 0 False [inputs_wide]) ! 0 = inputs_wide \<and>
   fst (execute_onnx (demo_env [buf_q, buf_p]) 0 (model_pq None) 0 False [inputs_ok]) = Inr 2 \<and>
   fst (execute_onnx (demo_env [buf_q, buf_p]) 0 (model_pq None) 0 False [inputs_wide]) =
     Inl (InputShapeMismatch ''x'' [2] [3])"
proof -
  have l: "(0::nat) < length [d]" for d :: pydict by simp
  have ok: "fst (execute_onnx (demo_env [buf_q, buf_p]) 0 (model_pq None) 0 False [inputs_ok]) = Inr 2"
    by code_simp
  have bad: "fst (execute_onnx (demo_env [buf_q, buf_p]) 0 (model_pq None) 0 False [inputs_wide]) =
     Inl (InputShapeMismatch ''x'' [2] [3])"
    by code_simp
  show ?thesis
    using execute_onnx_keeps_input_dict[OF l, of "demo_env [buf_q, buf_p]" 0 "model_pq None" False inputs_ok]
      execute_onnx_keeps_input_dict[OF l, of "demo_env [buf_q, buf_p]" 0 "model_pq None" False inputs_wide]
      ok bad
    by simp
qed

section \<open>Dispatch, strategies and the returned mapping\<close>

lemma execute_onnx_unfold:
  "execute_onnx E fuel model input_dict full h =
     (if \<not> check_all_tensor_shapes_specified E model then (Inl UnspecifiedShapes, h)
      else case bind_inputs (map fst ((h @ [make_empty_exec_context E model]) ! input_dict))
                  ((h @ [make_empty_exec_context E model]) ! input_dict)
                  (make_empty_exec_context E model) of
             (Some e, c) \<Rightarrow> (Inl e, h @ [c])
           | (None, c) \<Rightarrow>
               return_result full (m_graph model) (length h)
                 (run_strategy E fuel model (length h) (h @ [c])))"
  by (simp add: execute_onnx.simps run_strategy_def Let_def split: prod.splits option.splits)

lemma run_strategy_frame:
  assumes "ec < length h2"
  shows "length h2 \<le> length (snd (run_strategy E fuel model ec h2)) \<and>
         (\<forall>b<length h2. b \<noteq> ec \<longrightarrow> snd (run_strategy E fuel model ec h2) ! b = h2 ! b)"
  using assms heap_frame(2)[OF assms, of E fuel "g_node (m_graph model)" "m_graph model"]
  by (auto simp: run_strategy_def Let_def split: prod.splits)

lemma dict_update_keys: "fst ` set (dict_update c r) = fst ` set c \<union> fst ` set r"
  unfolding dict_update_def
  by (induction r arbitrary: c) (auto simp: dom_update)

lemma dict_update_other: "k \<notin> fst ` set r \<Longrightarrow> map_of (dict_update c r) k = map_of c k"
  unfolding dict_update_def
  by (induction r arbitrary: c) (auto simp: update_conv')

lemma make_output_dict_Inr:
  "make_output_dict outs ec acc = Inr od \<Longrightarrow>
   fst ` set od = fst ` set acc \<union> vi_name ` set outs \<and>
   (\<forall>k. map_of od k = (if k \<in> vi_name ` set outs then map_of ec k else map_of acc k)) \<and>
   (\<forall>k\<in>vi_name ` set outs. map_of ec k \<noteq> None)"
proof (induction outs arbitrary: acc)
  case Nil
  then show ?case by simp
next
  case (Cons out_tensor outs)
  from Cons.prems obtain t where t: "map_of ec (vi_name out_tensor) = Some t"
    and r: "make_output_dict outs ec (AList.update (vi_name out_tensor) t acc) = Inr od"
    by (auto split: option.splits)
  from Cons.IH[OF r] t show ?case
    by (auto simp: dom_update update_conv')
qed

text \<open>
  C5. \<^verbatim>\<open>execute_node\<close> has three branches, tried in this order: a node whose operator tag
  is the partition marker takes the nested-graph path, whatever its domain; otherwise a
  node of the domain \<^verbatim>\<open>finn\<close> is handed to the custom executor; otherwise the node goes
  through the single-node model and the generic backend. A custom node never reaches the
  generic backend and a generic node never reaches the custom executor.
\<close>

theorem execute_node_dispatch:
  "(op_type node = ''StreamingDataflowPartition'' \<longrightarrow>
      execute_node E fuel node c graph h =
        (case fuel of
           0 \<Rightarrow> (Some RecursionError, h)
         | Suc fuel' \<Rightarrow>
             (case load_model E node of
                Inl e \<Rightarrow> (Some e, h)
              | Inr model \<Rightarrow>
                  (case execute_onnx E fuel' model c True h of
                     (Inl e, h') \<Rightarrow> (Some e, h')
                   | (Inr ret, h') \<Rightarrow> (None, h'[c := dict_update (h' ! c) (h' ! ret)]))))) \<and>
   (op_type node \<noteq> ''StreamingDataflowPartition'' \<and> domain node = ''finn'' \<longrightarrow>
      execute_node E fuel node c graph h =
        (case execute_custom_node E node (h ! c) graph of (eo, c') \<Rightarrow> (eo, h[c := c'])) \<and>
      execute_node (E\<lparr>sess_run := backend\<rparr>) fuel node c graph h = execute_node E fuel node c graph h) \<and>
   (op_type node \<noteq> ''StreamingDataflowPartition'' \<and> domain node \<noteq> ''finn'' \<longrightarrow>
      execute_node E fuel node c graph h =
        (case execute_generic E node (h ! c) graph of (eo, c') \<Rightarrow> (eo, h[c := c'])) \<and>
      execute_node (E\<lparr>execute_custom_node := handler\<rparr>) fuel node c graph h =
        execute_node E fuel node c graph h)"
proof -
  have "execute_generic (E\<lparr>execute_custom_node := handler\<rparr>) node (h ! c) graph =
        execute_generic E node (h ! c) graph"
    by (simp add: execute_generic_def Let_def split: sum.splits)
  then show ?thesis by (simp add: execute_node.simps)
qed

theorem execute_node_dispatch_witness:
  "op_type node_part = ''StreamingDataflowPartition'' \<and> domain node_part = ''finn'' \<and>
   execute_node (demo_env [buf_q, buf_p]) 1 node_part 0 graph_part [spec_make_empty_exec_context model_part] =
     (None, [[(''x'', zeros [2]), (''p'', buf_p), (''q'', buf_q), (''w'', \<lparr>shape = [1], data = [9]\<rparr>)],
             [(''x'', zeros [2]), (''q'', buf_q), (''p'', buf_p), (''w'', \<lparr>shape = [1], data = [9]\<rparr>)]]) \<and>
   op_type node_custom \<noteq> ''StreamingDataflowPartition'' \<and> domain node_custom = ''finn'' \<and>
   execute_node (demo_env [buf_q, buf_p]) 1 node_custom 0 graph_part [spec_make_empty_exec_context model_part] =
     (None, [spec_make_empty_exec_context model_part]) \<and>
   op_type node_pq \<noteq> ''StreamingDataflowPartition'' \<and> domain node_pq \<noteq> ''finn'' \<and>
   execute_node (demo_env [buf_q, buf_p]) 1 node_pq 0 graph_pq [spec_make_empty_exec_context model_part] =
     (None, [[(''x'', zeros [2]), (''p'', buf_p), (''q'', buf_q)]])"
proof -
  let ?E = "demo_env [buf_q, buf_p]"
  let ?h = "[spec_make_empty_exec_context model_part]"
  have p: "op_type node_part = ''StreamingDataflowPartition'' \<and> domain node_part = ''finn''"
    by code_simp
  have pr: "(case (1::nat) of
           0 \<Rightarrow> (Some RecursionError, ?h)
         | Suc fuel' \<Rightarrow>
             (case load_model ?E node_part of
                Inl e \<Rightarrow> (Some e, ?h)
              | Inr model \<Rightarrow>
                  (case execute_onnx ?E fuel' model 0 True ?h of
                     (Inl e, h') \<Rightarrow> (Some e, h')
                   | (Inr ret, h') \<Rightarrow> (None, h'[0 := dict_update (h' ! 0) (h' ! ret)])))) =
     (None, [[(''x'', zeros [2]), (''p'', buf_p), (''q'', buf_q), (''w'', \<lparr>shape = [1], data = [9]\<rparr>)],
             [(''x'', zeros [2]), (''q'', buf_q), (''p'', buf_p), (''w'', \<lparr>shape = [1], data = [9]\<rparr>)]])"
    by code_simp
  have c: "op_type node_custom \<noteq> ''StreamingDataflowPartition'' \<and> domain node_custom = ''finn''"
    by code_simp
  have cr: "(case execute_custom_node ?E node_custom (?h ! 0) graph_part of (eo, c') \<Rightarrow> (eo, ?h[0 := c']))
      = (None, ?h)"
    by (simp add: demo_env_def)
  have g: "op_type node_pq \<noteq> ''StreamingDataflowPartition'' \<and> domain node_pq \<noteq> ''finn''"
    by code_simp
  have gr: "(case execute_generic ?E node_pq (?h ! 0) graph_pq of (eo, c') \<Rightarrow> (eo, ?h[0 := c']))
      = (None, [[(''x'', zeros [2]), (''p'', buf_p), (''q'', buf_q)]])"
    by code_simp
  from execute_node_dispatch[of node_part ?E 1 0 graph_part ?h] p pr
  have 1: "execute_node ?E 1 node_part 0 graph_part ?h =
     (None, [[(''x'', zeros [2]), (''p'', buf_p), (''q'', buf_q), (''w'', \<lparr>shape = [1], data = [9]\<rparr>)],
             [(''x'', zeros [2]), (''q'', buf_q), (''p'', buf_p), (''w'', \<lparr>shape = [1], data = [9]\<rparr>)]])"
    by simp
  from execute_node_dispatch[of node_custom ?E 1 0 graph_part ?h] c cr
  have 2: "execute_node ?E 1 node_custom 0 graph_part ?h = (None, ?h)"
    by simp
  from execute_node_dispatch[of node_pq ?E 1 0 graph_pq ?h] g gr
  have 3: "execute_node ?E 1 node_pq 0 graph_pq ?h =
     (None, [[(''x'', zeros [2]), (''p'', buf_p), (''q'', buf_q)]])"
    by simp
  from p 1 c 2 g 3 show ?thesis by blast
qed




text \<open>
  C7. After a successful top-level call the execution context is the dictionary allocated
  first by the call, at the address \<open>length h\<close>. When the full context is requested the call
  returns that dictionary itself; otherwise it returns a new dictionary whose keys are
  exactly the names of the graph's declared outputs, each mapped to the buffer that the
  final execution context holds under that name.
\<close>

theorem execute_onnx_returned_mapping:
  assumes "execute_onnx E fuel model i full h = (Inr r, h')"
  shows "length h < length h' \<and>
         (full \<longrightarrow> r = length h) \<and>
         (\<not> full \<longrightarrow>
            length h < r \<and> r < length h' \<and>
            fst ` set (h' ! r) = vi_name ` set (g_output (m_graph model)) \<and>
            (\<forall>k\<in>vi_name ` set (g_output (m_graph model)).
               map_of (h' ! r) k = map_of (h' ! length h) k \<and> map_of (h' ! r) k \<noteq> None))"
proof -
  let ?h1 = "h @ [make_empty_exec_context E model]"
  from assms have chk: "check_all_tensor_shapes_specified E model"
    by (auto simp: execute_onnx_unfold split: if_splits)
  obtain eo c where b: "bind_inputs (map fst (?h1 ! i)) (?h1 ! i) (make_empty_exec_context E model) = (eo, c)"
    by (cases "bind_inputs (map fst (?h1 ! i)) (?h1 ! i) (make_empty_exec_context E model)")
  with assms chk have eo: "eo = None"
    by (cases eo) (auto simp: execute_onnx_unfold)
  obtain so hs where s: "run_strategy E fuel model (length h) (h @ [c]) = (so, hs)"
    by (cases "run_strategy E fuel model (length h) (h @ [c])")
  have r: "return_result full (m_graph model) (length h) (so, hs) = (Inr r, h')"
    using assms chk b eo s by (simp add: execute_onnx_unfold)
  then have so: "so = None"
    by (cases so) (auto simp: return_result_def)
  have len: "length h < length hs"
    using run_strategy_frame[of "length h" "h @ [c]" E fuel model] s by simp
  show ?thesis
  proof (cases full)
    case True
    then show ?thesis using r so len by (simp add: return_result_def)
  next
    case False
    with r so obtain od where od: "make_output_dict (g_output (m_graph model)) (hs ! length h) [] = Inr od"
      and rr: "r = length hs" and h': "h' = hs @ [od]"
      by (auto simp: return_result_def split: sum.splits)
    from make_output_dict_Inr[OF od] len rr h' False
    show ?thesis by (auto simp: nth_append)
  qed
qed

theorem execute_onnx_returned_mapping_witness:
  "execute_onnx (demo_env [buf_q, buf_p]) 0 (model_pq None) 0 True [inputs_ok] =
     (Inr 1, [inputs_ok, [(''x'', \<lparr>shape = [2], data = [1, 2]\<rparr>), (''q'', buf_q), (''p'', buf_p),
                          (''w'', \<lparr>shape = [1], data = [9]\<rparr>)]]) \<and>
   (1::nat) = length [inputs_ok] \<and>
   execute_onnx (demo_env [buf_q, buf_p]) 0 (model_pq None) 0 False [inputs_ok] =
     (Inr 2, [inputs_ok, [(''x'', \<lparr>shape = [2], data = [1, 2]\<rparr>), (''q'', buf_q), (''p'', buf_p),
                          (''w'', \<lparr>shape = [1], data = [9]\<rparr>)],
              [(''q'', buf_q), (''p'', buf_p)]]) \<and>
   fst ` set [(''q'', buf_q), (''p'', buf_p)] = vi_name ` set (g_output (m_graph (model_pq None)))"
proof -
  let ?E = "demo_env [buf_q, buf_p]"
  let ?c = "[(''x'', \<lparr>shape = [2], data = [1, 2]\<rparr>), (''q'', buf_q), (''p'', buf_p),
             (''w'', \<lparr>shape = [1], data = [9]\<rparr>)]"
  have f: "execute_onnx ?E 0 (model_pq None) 0 True [inputs_ok] = (Inr 1, [inputs_ok, ?c])"
    by code_simp
  have n: "execute_onnx ?E 0 (model_pq None) 0 False [inputs_ok] =
     (Inr 2, [inputs_ok, ?c, [(''q'', buf_q), (''p'', buf_p)]])"
    by code_simp
  from execute_onnx_returned_mapping[OF f] have 1: "(1::nat) = length [inputs_ok]"
    by simp
  from execute_onnx_returned_mapping[OF n]
  have 2: "fst ` set [(''q'', buf_q), (''p'', buf_p)] = vi_name ` set (g_output (m_graph (model_pq None)))"
    by simp
  from f n 1 2 show ?thesis by blast
qed

lemma bind_inputs_bound:
  "bind_inputs ks d ec = (None, cb) \<Longrightarrow>
   map_of cb k = (if k \<in> set ks \<and> map_of ec k \<noteq> None then map_of d k else map_of ec k)"
proof (induction ks arbitrary: ec)
  case Nil
  then show ?case by simp
next
  case (Cons a ks)
  show ?case
  proof (cases "map_of ec a")
    case None
    with Cons.prems have "bind_inputs ks d ec = (None, cb)" by simp
    from Cons.IH[OF this] None show ?thesis by auto
  next
    case (Some t)
    with Cons.prems obtain v where v: "map_of d a = Some v"
      and r: "bind_inputs ks d (AList.update a v ec) = (None, cb)"
      by (auto split: option.splits if_splits)
    from Cons.IH[OF r] Some v show ?thesis
      by (auto simp: update_conv')
  qed
qed

lemma dict_update_distinct:
  "distinct (map fst r) \<Longrightarrow> map_of r k = Some v \<Longrightarrow> map_of (dict_update c r) k = Some v"
proof (induction r arbitrary: c)
  case Nil
  then show ?case by simp
next
  case (Cons kv r)
  show ?case
  proof (cases "fst kv = k")
    case True
    with Cons.prems have "k \<notin> fst ` set r" "snd kv = v" by (cases kv; auto)+
    then have "map_of (dict_update (AList.update (fst kv) (snd kv) c) r) k = Some v"
      using True by (simp add: dict_update_other update_conv')
    then show ?thesis by (simp add: dict_update_def)
  next
    case False
    with Cons.prems have "distinct (map fst r)" "map_of r k = Some v" by (cases kv; auto)+
    from Cons.IH[OF this, of "AList.update (fst kv) (snd kv) c"]
    show ?thesis by (simp add: dict_update_def)
  qed
qed

text \<open>
  C2 (amended). A partition node runs the nested model in a context of its own, a
  dictionary allocated by the nested call; the caller's context is handed to that call as
  its input bindings and is not changed by it. Afterwards the whole nested context is
  merged into the caller's context with \<^verbatim>\<open>context.update\<close>. Every entry of the caller's
  context that the nested run did not write (its name is no key of the nested context, or
  the nested context still holds under it the buffer that was bound from the caller) holds
  the same buffer as before; every name of the nested context holds the nested context's
  buffer afterwards, so the caller's context gains every name of the nested context that
  it lacked (nested constants and intermediate tensors too) and no other name; and no
  other dictionary that existed before the call changes.
\<close>

theorem partition_merges_nested_context:
  assumes "op_type node = ''StreamingDataflowPartition''"
      and "c < length h"
      and "execute_node E fuel node c graph h = (None, h')"
  shows "\<exists>fuel' model hn cb.
           fuel = Suc fuel' \<and> load_model E node = Inr model \<and>
           execute_onnx E fuel' model c True h = (Inr (length h), hn) \<and>
           length h < length hn \<and> hn ! c = h ! c \<and>
           bind_inputs (map fst (h ! c)) (h ! c) (make_empty_exec_context E model) = (None, cb) \<and>
           h' = hn[c := dict_update (h ! c) (hn ! length h)] \<and>
           fst ` set (h' ! c) = fst ` set (h ! c) \<union> fst ` set (hn ! length h) \<and>
           (\<forall>k. k \<notin> fst ` set (hn ! length h) \<longrightarrow> map_of (h' ! c) k = map_of (h ! c) k) \<and>
           (distinct (map fst (hn ! length h)) \<longrightarrow>
              (\<forall>k. k \<in> fst ` set (hn ! length h) \<longrightarrow>
                 map_of (h' ! c) k = map_of (hn ! length h) k) \<and>
              (\<forall>k. map_of (h ! c) k \<noteq> None \<and> map_of (hn ! length h) k = map_of cb k \<longrightarrow>
                 map_of (h' ! c) k = map_of (h ! c) k)) \<and>
           (\<forall>b<length h. b \<noteq> c \<longrightarrow> h' ! b = h ! b)"
proof -
  from assms(1,3) obtain fuel' where fuel: "fuel = Suc fuel'"
    by (cases fuel) (auto simp: execute_node.simps)
  from assms(1,3) fuel obtain model where m: "load_model E node = Inr model"
    by (cases "load_model E node") (auto simp: execute_node.simps)
  obtain r hn where n: "execute_onnx E fuel' model c True h = (r, hn)"
    by (cases "execute_onnx E fuel' model c True h")
  from assms(1,3) fuel m n obtain ret where ret: "r = Inr ret"
    and h': "h' = hn[c := dict_update (hn ! c) (hn ! ret)]"
    by (cases r) (auto simp: execute_node.simps)
  from heap_frame(3)[of h E fuel' model c True] n ret
  have fr: "length h \<le> length hn" "\<forall>b<length h. hn ! b = h ! b" "ret = length h" "ret < length hn"
    by auto
  let ?c0 = "make_empty_exec_context E model"
  let ?nc = "hn ! length h"
  obtain eo cb where b: "bind_inputs (map fst (h ! c)) (h ! c) ?c0 = (eo, cb)"
    by (cases "bind_inputs (map fst (h ! c)) (h ! c) ?c0")
  have eo: "eo = None"
    using n ret b assms(2)
    by (cases eo) (auto simp: execute_onnx_unfold nth_append split: if_splits)
  have hc: "h' ! c = dict_update (h ! c) ?nc"
    using h' fr assms(2) by simp
  have merge: "h' = hn[c := dict_update (h ! c) ?nc]"
    using h' fr assms(2) by simp
  have keys: "fst ` set (h' ! c) = fst ` set (h ! c) \<union> fst ` set ?nc"
    unfolding hc by (rule dict_update_keys)
  have other: "\<forall>k. k \<notin> fst ` set ?nc \<longrightarrow> map_of (h' ! c) k = map_of (h ! c) k"
    unfolding hc by (simp add: dict_update_other)
  have nested: "\<forall>k. k \<in> fst ` set ?nc \<longrightarrow> map_of (h' ! c) k = map_of ?nc k"
    if d: "distinct (map fst ?nc)"
  proof (intro allI impI)
    fix k assume "k \<in> fst ` set ?nc"
    then obtain v where "map_of ?nc k = Some v"
      by (metis map_of_eq_None_iff not_Some_eq)
    with dict_update_distinct[OF d this, of "h ! c"] show "map_of (h' ! c) k = map_of ?nc k"
      unfolding hc by simp
  qed
  have kept: "\<forall>k. map_of (h ! c) k \<noteq> None \<and> map_of ?nc k = map_of cb k \<longrightarrow>
                 map_of (h' ! c) k = map_of (h ! c) k"
    if d: "distinct (map fst ?nc)"
  proof (intro allI impI)
    fix k assume k: "map_of (h ! c) k \<noteq> None \<and> map_of ?nc k = map_of cb k"
    then have ks: "k \<in> set (map fst (h ! c))"
      by (metis map_of_eq_None_iff set_map)
    have cbk: "map_of cb k = (if map_of ?c0 k \<noteq> None then map_of (h ! c) k else None)"
      using bind_inputs_bound[OF b[unfolded eo], of k] ks by auto
    show "map_of (h' ! c) k = map_of (h ! c) k"
    proof (cases "map_of ?c0 k")
      case None
      with cbk k have "map_of ?nc k = None" by simp
      then have "k \<notin> fst ` set ?nc" by (simp add: map_of_eq_None_iff)
      with other show ?thesis by blast
    next
      case (Some t)
      with cbk k have "map_of ?nc k = map_of (h ! c) k" by simp
      moreover from k obtain v where "map_of (h ! c) k = Some v" by auto
      ultimately show ?thesis
        using dict_update_distinct[OF d, of k v "h ! c"] unfolding hc by simp
    qed
  qed
  have frame: "\<forall>b<length h. b \<noteq> c \<longrightarrow> h' ! b = h ! b"
    using h' fr by simp
  have "fuel = Suc fuel' \<and> load_model E node = Inr model \<and>
           execute_onnx E fuel' model c True h = (Inr (length h), hn) \<and>
           length h < length hn \<and> hn ! c = h ! c \<and>
           bind_inputs (map fst (h ! c)) (h ! c) ?c0 = (None, cb)"
    using fuel m n ret fr assms(2) b eo by auto
  with merge keys other nested kept frame show ?thesis by blast
qed

text \<open>
  The unamended statement fails at the names that are added: the constant \<open>w\<close> of the nested
  model is neither a declared output of the partition node nor an output of any node of the
  nested graph, it is absent from the caller's context before the node runs, and it is
  there afterwards.
\<close>

theorem partition_merges_nested_context_counterexample:
  "op_type node_part = ''StreamingDataflowPartition'' \<and>
   fst (execute_node (demo_env [buf_q, buf_p]) 1 node_part 0 graph_part [caller_ctx]) = None \<and>
   ''w'' \<notin> set (n_output node_part) \<and>
   ''w'' \<notin> set (concat (map n_output (g_node graph_pq))) \<and>
   map_of caller_ctx ''w'' = None \<and>
   map_of (snd (execute_node (demo_env [buf_q, buf_p]) 1 node_part 0 graph_part [caller_ctx]) ! 0) ''w''
     = Some \<lparr>shape = [1], data = [9]\<rparr>"
  by code_simp

theorem partition_merges_nested_context_witness:
  "op_type node_part = ''StreamingDataflowPartition'' \<and>
   (0::nat) < length [caller_ctx] \<and>
   execute_node (demo_env [buf_q, buf_p]) 1 node_part 0 graph_part [caller_ctx] =
     (None, [[(''x'', \<lparr>shape = [2], data = [1, 2]\<rparr>), (''p'', buf_p), (''q'', buf_q),
              (''w'', \<lparr>shape = [1], data = [9]\<rparr>)],
             [(''x'', \<lparr>shape = [2], data = [1, 2]\<rparr>), (''q'', buf_q), (''p'', buf_p),
              (''w'', \<lparr>shape = [1], data = [9]\<rparr>)]]) \<and>
   map_of caller_ctx ''x'' = Some \<lparr>shape = [2], data = [1, 2]\<rparr> \<and>
   map_of caller_ctx ''p'' = Some (zeros [1]) \<and>
   (\<exists>hn cb. execute_onnx (demo_env [buf_q, buf_p]) 0 (model_pq None) 0 True [caller_ctx] = (Inr 1, hn) \<and>
      bind_inputs (map fst caller_ctx) caller_ctx
        (make_empty_exec_context (demo_env [buf_q, buf_p]) (model_pq None)) = (None, cb) \<and>
      distinct (map fst (hn ! 1)) \<and>
      map_of (hn ! 1) ''x'' = map_of cb ''x'' \<and>
      map_of (hn ! 1) ''p'' = Some buf_p \<and>
      [(''x'', \<lparr>shape = [2], data = [1, 2]\<rparr>), (''p'', buf_p), (''q'', buf_q),
       (''w'', \<lparr>shape = [1], data = [9]\<rparr>)] = dict_update caller_ctx (hn ! 1))"
proof -
  let ?E = "demo_env [buf_q, buf_p]"
  let ?h = "[caller_ctx]"
  let ?nc = "[(''x'', \<lparr>shape = [2], data = [1, 2]\<rparr>), (''q'', buf_q), (''p'', buf_p),
              (''w'', \<lparr>shape = [1], data = [9]\<rparr>)]"
  let ?cc = "[(''x'', \<lparr>shape = [2], data = [1, 2]\<rparr>), (''p'', buf_p), (''q'', buf_q),
              (''w'', \<lparr>shape = [1], data = [9]\<rparr>)]"
  have a: "op_type node_part = ''StreamingDataflowPartition''" by code_simp
  have l: "(0::nat) < length ?h" by simp
  have r: "execute_node ?E 1 node_part 0 graph_part ?h = (None, [?cc, ?nc])" by code_simp
  have m: "load_model ?E node_part = Inr (model_pq None)" by code_simp
  have n: "execute_onnx ?E 0 (model_pq None) 0 True ?h = (Inr 1, [caller_ctx, ?nc])" by code_simp
  have x: "map_of caller_ctx ''x'' = Some \<lparr>shape = [2], data = [1, 2]\<rparr>"
    "map_of caller_ctx ''p'' = Some (zeros [1])"
    by code_simp+
  have d: "distinct (map fst ?nc)" "map_of ?nc ''p'' = Some buf_p" by code_simp+
  from partition_merges_nested_context[OF a l r] m n
  obtain cb where cb: "bind_inputs (map fst caller_ctx) caller_ctx
        (make_empty_exec_context ?E (model_pq None)) = (None, cb)"
    and mg: "[?cc, ?nc] = [caller_ctx, ?nc][0 := dict_update caller_ctx ?nc]"
    by auto
  have cbx: "map_of ?nc ''x'' = map_of cb ''x''"
  proof -
    have "bind_inputs (map fst caller_ctx) caller_ctx
        (make_empty_exec_context ?E (model_pq None)) =
          (None, [(''x'', \<lparr>shape = [2], data = [1, 2]\<rparr>), (''q'', zeros [1]), (''p'', zeros [1]),
                  (''w'', \<lparr>shape = [1], data = [9]\<rparr>)])"
      by code_simp
    with cb have "cb = [(''x'', \<lparr>shape = [2], data = [1, 2]\<rparr>), (''q'', zeros [1]), (''p'', zeros [1]),
                  (''w'', \<lparr>shape = [1], data = [9]\<rparr>)]"
      by simp
    then show ?thesis by simp
  qed
  from mg have "?cc = dict_update caller_ctx ?nc" by simp
  with a l r x n cb d cbx show ?thesis by auto
qed

end
